theory Spec2Isabelle
  imports Main "HOL-Library.Word" "HOL-Library.Char_ord" "HOL-Library.List_Lexorder"
begin

section \<open>Timestamps and time differences\<close>

text \<open>
  The date columns hold \<open>pd.Timestamp\<close> values and their differences are
  \<open>pd.Timedelta\<close> values, both counted in nanoseconds. Python's \<open>x.days\<close> of a
  time difference rounds towards minus infinity, as \<open>div\<close> on \<open>int\<close> does.
  A missing value (\<open>NaT\<close>, \<open>NaN\<close>) is \<open>None\<close>; comparing \<open>NaT\<close> with
  anything is false.
\<close>

type_synonym timestamp = int
type_synonym timedelta = int

definition ns_per_day :: int where
  "ns_per_day = 86400000000000"

definition Timedelta :: "int \<Rightarrow> timedelta" where
  "Timedelta n = n * ns_per_day"

definition td_days :: "timedelta \<Rightarrow> int" where
  "td_days x = x div ns_per_day"

definition td_ge :: "timedelta option \<Rightarrow> timedelta \<Rightarrow> bool" where
  "td_ge x y = (case x of None \<Rightarrow> False | Some d \<Rightarrow> y \<le> d)"

definition td_lt :: "timedelta option \<Rightarrow> timedelta \<Rightarrow> bool" where
  "td_lt x y = (case x of None \<Rightarrow> False | Some d \<Rightarrow> d < y)"

section \<open>Strings\<close>

text \<open>
  \<open>str.lower\<close>, \<open>str.upper\<close> and \<open>str.strip\<close> on ASCII text, \<open>str(n)\<close> for an
  integer and the format \<open>'{:0{prec}d}'\<close>, which pads with zeros after the sign.
\<close>

definition lower_char :: "char \<Rightarrow> char" where
  "lower_char c =
     (if CHR ''A'' \<le> c \<and> c \<le> CHR ''Z'' then char_of (of_char c + (32::nat)) else c)"

definition upper_char :: "char \<Rightarrow> char" where
  "upper_char c =
     (if CHR ''a'' \<le> c \<and> c \<le> CHR ''z'' then char_of (of_char c - (32::nat)) else c)"

definition lower :: "string \<Rightarrow> string" where
  "lower s = map lower_char s"

definition upper :: "string \<Rightarrow> string" where
  "upper s = map upper_char s"

definition is_space :: "char \<Rightarrow> bool" where
  "is_space c = (of_char c \<in> {9, 10, 11, 12, 13, 28, 29, 30, 31, 32 :: nat})"

definition strip :: "string \<Rightarrow> string" where
  "strip s = rev (dropWhile is_space (rev (dropWhile is_space s)))"

definition digit_char :: "nat \<Rightarrow> char" where
  "digit_char d = char_of (48 + d)"

fun str_nat :: "nat \<Rightarrow> string" where
  "str_nat n = (if n < 10 then [digit_char n] else str_nat (n div 10) @ [digit_char (n mod 10)])"

declare str_nat.simps [simp del]

definition str :: "int \<Rightarrow> string" where
  "str n = (if n < 0 then CHR ''-'' # str_nat (nat (- n)) else str_nat (nat n))"

definition format_0d :: "nat \<Rightarrow> int \<Rightarrow> string" where
  "format_0d prec x =
     (if x < 0
      then CHR ''-'' # replicate (prec - 1 - length (str_nat (nat (- x)))) CHR ''0''
             @ str_nat (nat (- x))
      else replicate (prec - length (str_nat (nat x))) CHR ''0'' @ str_nat (nat x))"

text \<open>
  For a number that is not negative the format gives the decimal digits behind as many
  zeros as the width leaves room for.
\<close>

definition zero_pad :: "nat \<Rightarrow> nat \<Rightarrow> string" where
  "zero_pad w n = replicate (w - length (str_nat n)) CHR ''0'' @ str_nat n"

section \<open>Data frames\<close>

text \<open>
  A data frame is the list of its rows, in order. \<open>read_datafile\<close> gives rows indexed by
  identifier and date with a response that may be missing; the later stages add the
  columns \<open>date_one\<close>, \<open>delta\<close>, \<open>days\<close> and \<open>pivot\<close>.
\<close>

record 'id raw_row =
  raw_id :: 'id
  raw_date :: timestamp
  raw_response :: "string option"
  raw_source_file :: string

record 'id row =
  id_col :: 'id
  date_col :: timestamp
  response_col :: string
  source_file :: string

record 'id jrow = "'id row" +
  date_one :: "timestamp option"

record 'id drow = "'id jrow" +
  delta :: "timedelta option"

record 'id arow = "'id jrow" +
  delta_a :: timedelta
  days :: int
  pivot :: string

datatype error = AssertionError | ValueError | KeyError

datatype 'id log =
    Error_invalid_responses "'id row list"
  | Error_duplicate_rows "'id row list"
  | Warning_missing_starts "'id list"

datatype cell = CStr string | CInt int | NaN

record 'id table =
  tcolumns :: "string list"
  trows :: "('id \<times> cell list) list"

record config =
  responses :: "(string \<times> string) list"
  response_names :: "(string \<times> string) list"
  offset_days :: int
  max_days :: int

section \<open>The response normalizer (report.py, lines 206 to 231)\<close>

definition fillna :: "'id raw_row \<Rightarrow> 'id row" where
  "fillna r =
     \<lparr>id_col = raw_id r, date_col = raw_date r,
      response_col = (case raw_response r of None \<Rightarrow> ''B'' | Some s \<Rightarrow> s),
      source_file = raw_source_file r\<rparr>"

definition lower_strip :: "'id row \<Rightarrow> 'id row" where
  "lower_strip r = r\<lparr>response_col := strip (lower (response_col r))\<rparr>"

definition valid_response :: "(string \<times> string) list \<Rightarrow> 'id row \<Rightarrow> bool" where
  "valid_response response_map r = (response_col r \<in> set (map fst response_map))"

definition canonical :: "(string \<times> string) list \<Rightarrow> 'id row \<Rightarrow> error + 'id row" where
  "canonical response_map r =
     (case map_of response_map (response_col r) of
        None \<Rightarrow> Inl KeyError
      | Some c \<Rightarrow> Inr (r\<lparr>response_col := c\<rparr>))"

fun apply_rows :: "('a \<Rightarrow> error + 'b) \<Rightarrow> 'a list \<Rightarrow> error + 'b list" where
  "apply_rows f [] = Inr []"
| "apply_rows f (x # xs) =
     (case f x of
        Inl e \<Rightarrow> Inl e
      | Inr y \<Rightarrow> (case apply_rows f xs of Inl e \<Rightarrow> Inl e | Inr ys \<Rightarrow> Inr (y # ys)))"

definition key :: "('id, 'z) row_scheme \<Rightarrow> 'id \<times> timestamp" where
  "key r = (id_col r, date_col r)"

definition duplicated :: "'id row list \<Rightarrow> 'id row \<Rightarrow> bool" where
  "duplicated df r = (1 < length (filter (\<lambda>r'. key r' = key r) df))"

definition validated :: "(string \<times> string) list \<Rightarrow> 'id raw_row list list \<Rightarrow> 'id row list" where
  "validated response_map data_frames =
     filter (valid_response response_map) (map lower_strip (map fillna (concat data_frames)))"

definition normalize ::
  "(string \<times> string) list \<Rightarrow> 'id raw_row list list \<Rightarrow> 'id log list \<times> (error + 'id row list)" where
  "normalize response_map data_frames =
     (if data_frames = [] then ([], Inl ValueError)
      else
        let df = map lower_strip (map fillna (concat data_frames));
            invalid = filter (\<lambda>r. \<not> valid_response response_map r) df;
            log1 = (if invalid = [] then [] else [Error_invalid_responses invalid]);
            df = validated response_map data_frames
        in case apply_rows (canonical response_map) df of
             Inl e \<Rightarrow> (log1, Inl e)
           | Inr df \<Rightarrow>
               let duplicates = filter (duplicated df) df;
                   log2 = (if duplicates = [] then [] else [Error_duplicate_rows duplicates]);
                   df = filter (\<lambda>r. \<not> duplicated df r) df
               in (log1 @ log2, Inr df))"

section \<open>The day-offset aligner (report.py, lines 233 to 258)\<close>

text \<open>
  The start-date registry is indexed by identifier; it is taken with one start date for
  an identifier, as a partial map. The left join keeps every row, with \<open>NaT\<close> as start date
  where the registry has none.
\<close>

definition join_row :: "('id \<rightharpoonup> timestamp) \<Rightarrow> 'id row \<Rightarrow> 'id jrow" where
  "join_row date_map r =
     \<lparr>id_col = id_col r, date_col = date_col r, response_col = response_col r,
      source_file = source_file r, date_one = date_map (id_col r)\<rparr>"

definition missing_starts :: "'id::linorder jrow list \<Rightarrow> 'id list" where
  "missing_starts df = sort (remdups (map id_col (filter (\<lambda>r. date_one r = None) df)))"

definition add_delta :: "int \<Rightarrow> 'id jrow \<Rightarrow> 'id drow" where
  "add_delta date1_offset r =
     \<lparr>id_col = id_col r, date_col = date_col r, response_col = response_col r,
      source_file = source_file r, date_one = date_one r,
      delta = (case date_one r of
                 None \<Rightarrow> None
               | Some s \<Rightarrow> Some (date_col r - s - Timedelta date1_offset))\<rparr>"

definition window_filter :: "int \<Rightarrow> 'id drow list \<Rightarrow> 'id drow list" where
  "window_filter maxdays df =
     filter (\<lambda>r. td_lt (delta r) (Timedelta maxdays))
       (filter (\<lambda>r. td_ge (delta r) (Timedelta 0)) df)"

definition add_pivot :: "int \<Rightarrow> 'id drow \<Rightarrow> error + 'id arow" where
  "add_pivot maxdays r =
     (case delta r of
        None \<Rightarrow> Inl ValueError
      | Some d \<Rightarrow>
          Inr \<lparr>id_col = id_col r, date_col = date_col r, response_col = response_col r,
               source_file = source_file r, date_one = date_one r, delta_a = d,
               days = td_days d + 1,
               pivot = ''Day'' @ format_0d (length (str maxdays)) (td_days d + 1)\<rparr>)"

definition align ::
  "int \<Rightarrow> int \<Rightarrow> ('id::linorder \<rightharpoonup> timestamp) \<Rightarrow> 'id row list
     \<Rightarrow> 'id log list \<times> (error + 'id arow list)" where
  "align date1_offset maxdays date_map df =
     (let df = map (join_row date_map) df;
          missing = missing_starts df;
          log3 = (if missing = [] then [] else [Warning_missing_starts missing]);
          df = map (add_delta date1_offset) df;
          df = window_filter maxdays df
      in (log3, apply_rows (add_pivot maxdays) df))"

section \<open>The pivot and aggregate engine (report.py, lines 261 to 298)\<close>

text \<open>
  A group-by on the identifier level has one group for each identifier of the frame, in
  ascending order. A series is the list of its (identifier, value) entries, and a join
  looks the identifier of each row of the left table up in the other index, giving
  \<open>NaN\<close> where it is absent; a join of two tables that share a column name raises.
\<close>

definition index_ids :: "('id::linorder, 'z) row_scheme list \<Rightarrow> 'id list" where
  "index_ids df = sort (remdups (map id_col df))"

definition group :: "'id \<Rightarrow> ('id, 'z) row_scheme list \<Rightarrow> ('id, 'z) row_scheme list" where
  "group i df = filter (\<lambda>r. id_col r = i) df"

definition pivot_table :: "'id::linorder arow list \<Rightarrow> error + 'id table" where
  "pivot_table df =
     (if \<not> distinct (map (\<lambda>r. (id_col r, pivot r)) df) then Inl ValueError
      else
        let columns = sort (remdups (map pivot df))
        in Inr \<lparr>tcolumns = columns,
                trows = map (\<lambda>i. (i, map (\<lambda>c. case find (\<lambda>r. id_col r = i \<and> pivot r = c) df of
                                               None \<Rightarrow> NaN
                                             | Some r \<Rightarrow> CStr (response_col r)) columns))
                          (index_ids df)\<rparr>)"

definition first_days :: "'id::linorder arow list \<Rightarrow> ('id \<times> cell) list" where
  "first_days df = map (\<lambda>i. (i, CInt (Min (set (map days (group i df)))))) (index_ids df)"

definition first_yes :: "'id::linorder arow list \<Rightarrow> ('id \<times> cell) list" where
  "first_yes df = first_days (filter (\<lambda>r. response_col r = ''Y'') df)"

definition total_period :: "'id::linorder arow list \<Rightarrow> ('id \<times> cell) list" where
  "total_period df =
     map (\<lambda>i. (i, CInt (td_days (Max (set (map delta_a (group i df)))
                               - Min (set (map delta_a (group i df)))) + 1)))
       (index_ids df)"

definition value_counts :: "'id::linorder arow list \<Rightarrow> (('id \<times> string) \<times> nat) list" where
  "value_counts df =
     concat (map (\<lambda>i. map (\<lambda>c. ((i, c), length (filter (\<lambda>r. response_col r = c) (group i df))))
                          (sort (remdups (map response_col (group i df)))))
                 (index_ids df))"

definition astype_int32 :: "int \<Rightarrow> int" where
  "astype_int32 n = sint (word_of_int n :: 32 word)"

definition total_names :: "(string \<times> string) list \<Rightarrow> (string \<times> string) list" where
  "total_names names = map (\<lambda>(k, v). (upper k, ''Total_'' @ v)) names"

definition rename :: "(string \<times> string) list \<Rightarrow> string \<Rightarrow> string" where
  "rename names c = (case map_of (rev (total_names names)) c of None \<Rightarrow> c | Some n \<Rightarrow> n)"

definition tally :: "(string \<times> string) list \<Rightarrow> 'id::linorder arow list \<Rightarrow> 'id table" where
  "tally names df =
     (let counts = value_counts df;
          codes = sort (remdups (map snd (map fst counts)))
      in \<lparr>tcolumns = map (rename names) codes,
          trows = map (\<lambda>i. (i, map (\<lambda>c. CInt (astype_int32
                                      (case map_of counts (i, c) of
                                         None \<Rightarrow> 0
                                       | Some n \<Rightarrow> int n))) codes))
                    (sort (remdups (map fst (map fst counts))))\<rparr>)"

definition join_series :: "'id table \<Rightarrow> string \<times> ('id \<times> cell) list \<Rightarrow> error + 'id table" where
  "join_series t s =
     (if fst s \<in> set (tcolumns t) then Inl ValueError
      else Inr \<lparr>tcolumns = tcolumns t @ [fst s],
                trows = map (\<lambda>(i, cs). (i, cs @ [case map_of (snd s) i of
                                                    None \<Rightarrow> NaN
                                                  | Some v \<Rightarrow> v])) (trows t)\<rparr>)"

definition join_table :: "'id table \<Rightarrow> 'id table \<Rightarrow> error + 'id table" where
  "join_table t other =
     (if set (tcolumns t) \<inter> set (tcolumns other) \<noteq> {} then Inl ValueError
      else Inr \<lparr>tcolumns = tcolumns t @ tcolumns other,
                trows = map (\<lambda>(i, cs). (i, cs @ (case map_of (trows other) i of
                                                    None \<Rightarrow> replicate (length (tcolumns other)) NaN
                                                  | Some vs \<Rightarrow> vs))) (trows t)\<rparr>)"

definition report :: "(string \<times> string) list \<Rightarrow> 'id::linorder arow list \<Rightarrow> error + 'id table" where
  "report names df =
     (case pivot_table df of
        Inl e \<Rightarrow> Inl e
      | Inr pivoted \<Rightarrow>
     (case join_series pivoted (''Total_Period'', total_period df) of
        Inl e \<Rightarrow> Inl e
      | Inr t1 \<Rightarrow>
     (case join_table t1 (tally names df) of
        Inl e \<Rightarrow> Inl e
      | Inr t2 \<Rightarrow>
     (case join_series t2 (''First_Response'', first_days df) of
        Inl e \<Rightarrow> Inl e
      | Inr t3 \<Rightarrow> join_series t3 (''First_Yes'', first_yes df)))))"

section \<open>The command line interface (report.py, lines 136 to 301)\<close>

text \<open>
  The configuration is taken as read by \<open>configparser\<close> (keys in lower case); the two
  assertions on the response vocabulary come first, before the registry and the data
  files are read. A run gives the messages written to the log, in order, and either the
  error that stopped it or the table written to the output file.
\<close>

definition cli ::
  "config \<Rightarrow> ('id::linorder \<rightharpoonup> timestamp) \<Rightarrow> 'id raw_row list list
     \<Rightarrow> 'id log list \<times> (error + 'id table)" where
  "cli cfg date_map data_frames =
     (if ''b'' \<in> set (map fst (responses cfg)) then ([], Inl AssertionError)
      else if ''B'' \<in> set (map snd (responses cfg)) then ([], Inl AssertionError)
      else
        let response_map = responses cfg @ [(''b'', ''B'')]
        in case normalize response_map data_frames of
             (log1, Inl e) \<Rightarrow> (log1, Inl e)
           | (log1, Inr df) \<Rightarrow>
          (case align (offset_days cfg) (max_days cfg) date_map df of
             (log2, Inl e) \<Rightarrow> (log1 @ log2, Inl e)
           | (log2, Inr df) \<Rightarrow> (log1 @ log2, report (response_names cfg) df)))"

section \<open>Example inputs\<close>

definition day :: "int \<Rightarrow> timestamp" where
  "day n = n * 86400000000000"

definition rec1 :: "int \<Rightarrow> nat row" where
  "rec1 n = \<lparr>id_col = 1, date_col = day n, response_col = ''Y'', source_file = ''f''\<rparr>"

definition raw_key :: "'id raw_row \<Rightarrow> 'id \<times> timestamp" where
  "raw_key r = (raw_id r, raw_date r)"

definition raw1 :: "int \<Rightarrow> string option \<Rightarrow> string \<Rightarrow> nat raw_row" where
  "raw1 n resp file = \<lparr>raw_id = 1, raw_date = day n, raw_response = resp, raw_source_file = file\<rparr>"

definition vocab :: "(string \<times> string) list" where
  "vocab = [(''y'', ''Y''), (''n'', ''N''), (''b'', ''B'')]"

definition cfg1 :: config where
  "cfg1 = \<lparr>responses = [(''y'', ''Y''), (''n'', ''N'')],
           response_names = [(''y'', ''Yes''), (''n'', ''No''), (''b'', ''Blank'')],
           offset_days = 2, max_days = 5\<rparr>"

section \<open>Auxiliary facts\<close>

lemma ns_per_day_pos: "0 < ns_per_day"
  by (simp add: ns_per_day_def)

lemma td_days_nonneg_iff: "0 \<le> td_days d \<longleftrightarrow> 0 \<le> d"
  unfolding td_days_def using ns_per_day_pos by (simp add: pos_imp_zdiv_nonneg_iff)

lemma td_days_less_iff: "td_days d < m \<longleftrightarrow> d < Timedelta m"
proof -
  let ?N = ns_per_day
  have eq: "d div ?N * ?N + d mod ?N = d" by (rule div_mult_mod_eq)
  have r0: "0 \<le> d mod ?N" and r1: "d mod ?N < ?N"
    using ns_per_day_pos by simp_all
  show ?thesis
  proof
    assume "td_days d < m"
    then have "d div ?N + 1 \<le> m" by (simp add: td_days_def)
    then have "(d div ?N + 1) * ?N \<le> m * ?N"
      using ns_per_day_pos by (simp add: mult_right_mono)
    then have "d div ?N * ?N + ?N \<le> m * ?N"
      by (simp add: algebra_simps)
    with eq r1 show "d < Timedelta m"
      unfolding Timedelta_def by linarith
  next
    assume "d < Timedelta m"
    show "td_days d < m"
    proof (rule ccontr)
      assume "\<not> td_days d < m"
      then have "m \<le> d div ?N" by (simp add: td_days_def)
      then have "m * ?N \<le> d div ?N * ?N"
        using ns_per_day_pos by (simp add: mult_right_mono)
      with eq r0 \<open>d < Timedelta m\<close> show False
        unfolding Timedelta_def by linarith
    qed
  qed
qed

lemma td_days_Timedelta: "td_days (Timedelta n) = n"
  using ns_per_day_pos by (simp add: td_days_def Timedelta_def)

lemma apply_rows_Inr:
  "apply_rows f xs = Inr ys \<Longrightarrow> list_all2 (\<lambda>x y. f x = Inr y) xs ys"
proof (induction xs arbitrary: ys)
  case Nil
  then show ?case by auto
next
  case (Cons x xs)
  then show ?case
    by (cases ys) (auto split: sum.splits)
qed

lemma apply_rows_total:
  "(\<And>x. x \<in> set xs \<Longrightarrow> \<exists>y. f x = Inr y) \<Longrightarrow> \<exists>ys. apply_rows f xs = Inr ys"
proof (induction xs)
  case Nil
  then show ?case by simp
next
  case (Cons x xs)
  then obtain y ys where "f x = Inr y" "apply_rows f xs = Inr ys"
    by (metis list.set_intros(1) list.set_intros(2))
  then show ?case by simp
qed

lemma window_filter_delta:
  "r \<in> set (window_filter m df) \<longleftrightarrow>
     r \<in> set df \<and> (\<exists>d. delta r = Some d \<and> 0 \<le> td_days d \<and> td_days d < m)"
  by (auto simp: window_filter_def td_ge_def td_lt_def td_days_nonneg_iff td_days_less_iff
        Timedelta_def split: option.splits)

lemma add_pivot_window:
  "r \<in> set (window_filter m df) \<Longrightarrow> \<exists>a. add_pivot m r = Inr a"
  by (auto simp: window_filter_delta add_pivot_def)

lemma align_Inr:
  "\<exists>al. align off m dm df = (if missing_starts (map (join_row dm) df) = [] then []
           else [Warning_missing_starts (missing_starts (map (join_row dm) df))], Inr al)
       \<and> list_all2 (\<lambda>r a. add_pivot m r = Inr a)
            (window_filter m (map (add_delta off) (map (join_row dm) df))) al"
proof -
  let ?w = "window_filter m (map (add_delta off) (map (join_row dm) df))"
  obtain al where al: "apply_rows (add_pivot m) ?w = Inr al"
    using apply_rows_total [of ?w "add_pivot m"] add_pivot_window by blast
  then have "list_all2 (\<lambda>r a. add_pivot m r = Inr a) ?w al"
    by (rule apply_rows_Inr)
  with al show ?thesis
    by (simp add: align_def Let_def)
qed

lemma canonical_key: "canonical rm x = Inr y \<Longrightarrow> key y = key x"
  by (auto simp: canonical_def key_def split: option.splits)

lemma canonical_keys:
  "list_all2 (\<lambda>x y. canonical rm x = Inr y) xs ys \<Longrightarrow> map key ys = map key xs"
  by (induction xs ys rule: list_all2_induct) (simp_all add: canonical_key)

lemma count_key: "length (filter (\<lambda>r'. key r' = k) xs) = count_list (map key xs) k"
  by (induction xs) simp_all

lemma normalize_Inr:
  assumes "normalize rm dfs = (lg, Inr df)"
  obtains cdf where "apply_rows (canonical rm) (validated rm dfs) = Inr cdf"
    and "df = filter (\<lambda>r. \<not> duplicated cdf r) cdf"
  using assms by (auto simp: normalize_def Let_def split: if_splits sum.splits)

lemma append_less_append:
  fixes xs ys :: "'a::linorder list"
  shows "p @ xs < p @ ys \<longleftrightarrow> xs < ys"
  by (induction p) simp_all

lemma snoc_less_snoc:
  fixes xs ys :: "'a::linorder list"
  assumes "length xs = length ys"
  shows "xs @ [x] < ys @ [y] \<longleftrightarrow> xs < ys \<or> xs = ys \<and> x < y"
  using assms by (induction xs ys rule: list_induct2) auto

lemma digit_char_less: "a < 10 \<Longrightarrow> b < 10 \<Longrightarrow> digit_char a < digit_char b \<longleftrightarrow> a < b"
  by (simp add: digit_char_def less_char_def)

lemma length_str_nat_pos: "0 < length (str_nat n)"
  by (induction n rule: str_nat.induct) (subst str_nat.simps, simp)

lemma length_str_nat_le: "0 < w \<Longrightarrow> length (str_nat n) \<le> w \<longleftrightarrow> n < 10 ^ w"
proof (induction n arbitrary: w rule: str_nat.induct)
  case (1 n)
  show ?case
  proof (cases "n < 10")
    case True
    have "(10::nat) ^ 1 \<le> 10 ^ w" using 1(2) by (intro power_increasing) simp_all
    with True have "n < 10 ^ w" by simp
    moreover have "length (str_nat n) = 1" using True by (subst str_nat.simps) simp
    ultimately show ?thesis using 1(2) by simp
  next
    case False
    then have l: "length (str_nat n) = Suc (length (str_nat (n div 10)))"
      by (subst str_nat.simps) simp
    show ?thesis
    proof (cases w)
      case 0
      with 1(2) show ?thesis by simp
    next
      case (Suc v)
      show ?thesis
      proof (cases "v = 0")
        case True
        with Suc False l length_str_nat_pos [of "n div 10"] show ?thesis by simp
      next
        case v: False
        then have "length (str_nat (n div 10)) \<le> v \<longleftrightarrow> n div 10 < 10 ^ v"
          using 1(1) [OF False, of v] by simp
        moreover have "n div 10 < 10 ^ v \<longleftrightarrow> n < 10 ^ v * 10"
          by (simp add: div_less_iff_less_mult)
        moreover have "(10::nat) ^ Suc v = 10 ^ v * 10"
          by simp
        ultimately show ?thesis using l Suc by (simp del: power_Suc)
      qed
    qed
  qed
qed

lemma zero_pad_Suc:
  assumes "0 < w"
  shows "zero_pad (Suc w) n = zero_pad w (n div 10) @ [digit_char (n mod 10)]"
proof (cases "n < 10")
  case True
  then have "str_nat n = [digit_char n]" "str_nat (n div 10) = [digit_char 0]"
    by (subst str_nat.simps, simp)+
  moreover have "digit_char 0 = CHR ''0''"
    by code_simp
  then have "replicate (w - 1) CHR ''0'' @ [digit_char 0] = replicate w CHR ''0''"
    using assms by (cases w) (simp_all add: replicate_append_same)
  ultimately show ?thesis using True by (simp add: zero_pad_def)
next
  case False
  then have "str_nat n = str_nat (n div 10) @ [digit_char (n mod 10)]"
    by (subst str_nat.simps) simp
  then show ?thesis by (simp add: zero_pad_def)
qed

lemma length_zero_pad: "length (str_nat n) \<le> w \<Longrightarrow> length (zero_pad w n) = w"
  by (simp add: zero_pad_def)

lemma div_mod_10_less:
  fixes a b :: nat
  shows "(a div 10 < b div 10 \<or> a div 10 = b div 10 \<and> a mod 10 < b mod 10) \<longleftrightarrow> a < b"
proof -
  define qa ra qb rb where "qa = a div 10" and "ra = a mod 10" and "qb = b div 10" and "rb = b mod 10"
  have a: "a = 10 * qa + ra" and b: "b = 10 * qb + rb" and r: "ra < 10" "rb < 10"
    by (simp_all add: qa_def ra_def qb_def rb_def)
  have "(qa < qb \<or> qa = qb \<and> ra < rb) \<longleftrightarrow> 10 * qa + ra < 10 * qb + rb"
    using r by arith
  then show ?thesis
    unfolding qa_def ra_def qb_def rb_def by simp
qed

lemma zero_pad_less_iff:
  "0 < w \<Longrightarrow> a < 10 ^ w \<Longrightarrow> b < 10 ^ w \<Longrightarrow> zero_pad w a < zero_pad w b \<longleftrightarrow> a < b"
proof (induction w arbitrary: a b)
  case 0
  then show ?case by simp
next
  case (Suc w)
  show ?case
  proof (cases "w = 0")
    case True
    with Suc.prems have "a < 10" "b < 10" by simp_all
    then have "str_nat a = [digit_char a]" "str_nat b = [digit_char b]"
      by (subst str_nat.simps, simp)+
    with True \<open>a < 10\<close> \<open>b < 10\<close> show ?thesis
      by (simp add: zero_pad_def digit_char_less)
  next
    case False
    then have w: "0 < w" by simp
    have a: "a div 10 < 10 ^ w" and b: "b div 10 < 10 ^ w"
      using Suc.prems by (simp_all add: less_mult_imp_div_less)
    have len: "length (zero_pad w (a div 10)) = length (zero_pad w (b div 10))"
      using a b w by (simp add: length_zero_pad length_str_nat_le)
    have IH: "zero_pad w x < zero_pad w y \<longleftrightarrow> x < y" if "x < 10 ^ w" "y < 10 ^ w" for x y
      using Suc.IH [OF w that] .
    have inj: "zero_pad w (a div 10) = zero_pad w (b div 10) \<longleftrightarrow> a div 10 = b div 10"
    proof
      assume e: "zero_pad w (a div 10) = zero_pad w (b div 10)"
      show "a div 10 = b div 10"
      proof (rule ccontr)
        assume "a div 10 \<noteq> b div 10"
        then consider "a div 10 < b div 10" | "b div 10 < a div 10" by linarith
        then show False
        proof cases
          case 1
          with IH [OF a b] e show False by simp
        next
          case 2
          with IH [OF b a] e show False by simp
        qed
      qed
    qed simp
    have "zero_pad (Suc w) a < zero_pad (Suc w) b \<longleftrightarrow>
            zero_pad w (a div 10) < zero_pad w (b div 10)
            \<or> zero_pad w (a div 10) = zero_pad w (b div 10)
              \<and> digit_char (a mod 10) < digit_char (b mod 10)"
      unfolding zero_pad_Suc [OF w] by (rule snoc_less_snoc [OF len])
    also have "\<dots> \<longleftrightarrow>
            a div 10 < b div 10 \<or> a div 10 = b div 10 \<and> a mod 10 < b mod 10"
      unfolding IH [OF a b] inj by (simp add: digit_char_less)
    also have "\<dots> \<longleftrightarrow> a < b"
      by (rule div_mod_10_less)
    finally show ?thesis .
  qed
qed

section \<open>The window filter\<close>

text \<open>
  Claim C1. A normalized record whose subject has a known start date survives the window
  filter if and only if \<open>0 \<le> delta.days < max_days\<close>, where \<open>delta\<close> is the record's
  date minus the start date minus the offset in days. So \<open>delta.days = 0\<close> and
  \<open>delta.days = max_days - 1\<close> are kept, \<open>delta.days = -1\<close> and
  \<open>delta.days = max_days\<close> are dropped.
\<close>

theorem window_filter_days:
  assumes "r \<in> set df" and "date_map (id_col r) = Some start"
  shows "add_delta date1_offset (join_row date_map r)
           \<in> set (window_filter maxdays (map (add_delta date1_offset) (map (join_row date_map) df)))
         \<longleftrightarrow> 0 \<le> td_days (date_col r - start - Timedelta date1_offset)
               \<and> td_days (date_col r - start - Timedelta date1_offset) < maxdays"
proof -
  have "delta (add_delta date1_offset (join_row date_map r))
          = Some (date_col r - start - Timedelta date1_offset)"
    using assms(2) by (simp add: add_delta_def join_row_def)
  moreover have "add_delta date1_offset (join_row date_map r)
                   \<in> set (map (add_delta date1_offset) (map (join_row date_map) df))"
    using assms(1) by simp
  ultimately show ?thesis
    by (simp add: window_filter_delta)
qed

theorem window_filter_days_witness:
  "rec1 12 \<in> set [rec1 11, rec1 12, rec1 16, rec1 17]
   \<and> [1 \<mapsto> day 10] (id_col (rec1 12)) = Some (day 10)
   \<and> td_days (date_col (rec1 11) - day 10 - Timedelta 2) = - 1
   \<and> add_delta 2 (join_row [1 \<mapsto> day 10] (rec1 11))
        \<notin> set (window_filter 5 (map (add_delta 2)
                 (map (join_row [1 \<mapsto> day 10]) [rec1 11, rec1 12, rec1 16, rec1 17])))
   \<and> td_days (date_col (rec1 12) - day 10 - Timedelta 2) = 0
   \<and> add_delta 2 (join_row [1 \<mapsto> day 10] (rec1 12))
        \<in> set (window_filter 5 (map (add_delta 2)
                 (map (join_row [1 \<mapsto> day 10]) [rec1 11, rec1 12, rec1 16, rec1 17])))
   \<and> td_days (date_col (rec1 16) - day 10 - Timedelta 2) = 5 - 1
   \<and> add_delta 2 (join_row [1 \<mapsto> day 10] (rec1 16))
        \<in> set (window_filter 5 (map (add_delta 2)
                 (map (join_row [1 \<mapsto> day 10]) [rec1 11, rec1 12, rec1 16, rec1 17])))
   \<and> td_days (date_col (rec1 17) - day 10 - Timedelta 2) = 5
   \<and> add_delta 2 (join_row [1 \<mapsto> day 10] (rec1 17))
        \<notin> set (window_filter 5 (map (add_delta 2)
                 (map (join_row [1 \<mapsto> day 10]) [rec1 11, rec1 12, rec1 16, rec1 17])))"
proof -
  let ?df = "[rec1 11, rec1 12, rec1 16, rec1 17]"
  let ?dm = "[1 \<mapsto> day 10]"
  have d: "td_days (date_col (rec1 11) - day 10 - Timedelta 2) = - 1"
          "td_days (date_col (rec1 12) - day 10 - Timedelta 2) = 0"
          "td_days (date_col (rec1 16) - day 10 - Timedelta 2) = 5 - 1"
          "td_days (date_col (rec1 17) - day 10 - Timedelta 2) = 5"
    by (simp_all add: rec1_def day_def td_days_def Timedelta_def ns_per_day_def)
  have m: "?dm (id_col (rec1 n)) = Some (day 10)" for n
    by (simp add: rec1_def)
  have i: "rec1 11 \<in> set ?df" "rec1 12 \<in> set ?df" "rec1 16 \<in> set ?df" "rec1 17 \<in> set ?df"
    by simp_all
  have "add_delta 2 (join_row ?dm (rec1 11)) \<notin> set (window_filter 5 (map (add_delta 2) (map (join_row ?dm) ?df)))"
       "add_delta 2 (join_row ?dm (rec1 12)) \<in> set (window_filter 5 (map (add_delta 2) (map (join_row ?dm) ?df)))"
       "add_delta 2 (join_row ?dm (rec1 16)) \<in> set (window_filter 5 (map (add_delta 2) (map (join_row ?dm) ?df)))"
       "add_delta 2 (join_row ?dm (rec1 17)) \<notin> set (window_filter 5 (map (add_delta 2) (map (join_row ?dm) ?df)))"
    using window_filter_days [of "rec1 11" ?df ?dm "day 10" 2 5, OF i(1) m]
      window_filter_days [of "rec1 12" ?df ?dm "day 10" 2 5, OF i(2) m]
      window_filter_days [of "rec1 16" ?df ?dm "day 10" 2 5, OF i(3) m]
      window_filter_days [of "rec1 17" ?df ?dm "day 10" 2 5, OF i(4) m] d
    by simp_all
  with d m i show ?thesis
    by blast
qed

section \<open>Duplicate keys\<close>

text \<open>
  Claim C3, as stated: every (subject, date) key that appears in more than one row of the
  concatenated input has no row in the normalized set. The duplicate check runs after the
  rows with an invalid response have been removed, so a key that is duplicated in the
  input but has a single row with a valid response keeps that row: here subject 1 has two
  input rows for day 12, with responses \<open>y\<close> and \<open>x\<close>, and the row with \<open>y\<close> is in
  the normalized set.
\<close>

theorem duplicate_key_survives:
  "map raw_key (concat [[raw1 12 (Some ''y'') ''a''], [raw1 12 (Some ''x'') ''b'']])
     = [(1, day 12), (1, day 12)]
   \<and> normalize vocab [[raw1 12 (Some ''y'') ''a''], [raw1 12 (Some ''x'') ''b'']]
     = ([Error_invalid_responses
           [\<lparr>id_col = 1, date_col = day 12, response_col = ''x'', source_file = ''b''\<rparr>]],
        Inr [\<lparr>id_col = 1, date_col = day 12, response_col = ''Y'', source_file = ''a''\<rparr>])"
  by code_simp

text \<open>
  Claim C3, amended: every (subject, date) key that appears in more than one of the rows
  left after the removal of invalid responses has no row in the normalized set: all its
  copies are removed.
\<close>

theorem duplicate_keys_removed:
  assumes "normalize response_map data_frames = (lg, Inr df)"
    and "1 < length (filter (\<lambda>r. key r = k) (validated response_map data_frames))"
  shows "\<not> (\<exists>r \<in> set df. key r = k)"
proof -
  from assms(1) obtain cdf
    where c: "apply_rows (canonical response_map) (validated response_map data_frames) = Inr cdf"
      and df: "df = filter (\<lambda>r. \<not> duplicated cdf r) cdf"
    by (rule normalize_Inr)
  have "map key cdf = map key (validated response_map data_frames)"
    using apply_rows_Inr [OF c] by (rule canonical_keys)
  then have "1 < length (filter (\<lambda>r. key r = k) cdf)"
    using assms(2) by (simp add: count_key)
  then show ?thesis
    by (auto simp: df duplicated_def)
qed

theorem duplicate_keys_removed_witness:
  "normalize vocab
     [[raw1 12 (Some ''y'') ''a'', raw1 13 (Some ''n'') ''a''], [raw1 12 (Some ''Y '') ''b'']]
     = ([Error_duplicate_rows
           [\<lparr>id_col = 1, date_col = day 12, response_col = ''Y'', source_file = ''a''\<rparr>,
            \<lparr>id_col = 1, date_col = day 12, response_col = ''Y'', source_file = ''b''\<rparr>]],
        Inr [\<lparr>id_col = 1, date_col = day 13, response_col = ''N'', source_file = ''a''\<rparr>])
   \<and> 1 < length (filter (\<lambda>r. key r = (1, day 12))
             (validated vocab
                [[raw1 12 (Some ''y'') ''a'', raw1 13 (Some ''n'') ''a''],
                 [raw1 12 (Some ''Y '') ''b'']]))
   \<and> \<not> (\<exists>r \<in> set [\<lparr>id_col = 1, date_col = day 13, response_col = ''N'', source_file = ''a''\<rparr>].
           key r = (1::nat, day 12))"
proof -
  let ?dfs = "[[raw1 12 (Some ''y'') ''a'', raw1 13 (Some ''n'') ''a''], [raw1 12 (Some ''Y '') ''b'']]"
  let ?out = "[\<lparr>id_col = 1::nat, date_col = day 13, response_col = ''N'', source_file = ''a''\<rparr>]"
  have n: "normalize vocab ?dfs
     = ([Error_duplicate_rows
           [\<lparr>id_col = 1, date_col = day 12, response_col = ''Y'', source_file = ''a''\<rparr>,
            \<lparr>id_col = 1, date_col = day 12, response_col = ''Y'', source_file = ''b''\<rparr>]],
        Inr ?out)"
    by code_simp
  have v: "1 < length (filter (\<lambda>r. key r = (1, day 12)) (validated vocab ?dfs))"
    by code_simp
  from duplicate_keys_removed [OF n v] n v show ?thesis
    by blast
qed

section \<open>The reserved blank code\<close>

text \<open>
  Claim C9. When a configured raw code is the raw blank code \<open>b\<close>, or a configured
  canonical code is the canonical blank code \<open>B\<close>, the run stops with an assertion error
  whatever the registry and the data files hold, with nothing logged before.
\<close>

theorem blank_collision_aborts:
  assumes "''b'' \<in> set (map fst (responses cfg)) \<or> ''B'' \<in> set (map snd (responses cfg))"
  shows "cli cfg date_map data_frames = ([], Inl AssertionError)"
  using assms by (auto simp: cli_def)

theorem blank_collision_aborts_witness:
  "(''b'' \<in> set (map fst (responses (cfg1\<lparr>responses := [(''y'', ''Y''), (''b'', ''N'')]\<rparr>)))
      \<or> ''B'' \<in> set (map snd (responses (cfg1\<lparr>responses := [(''y'', ''Y''), (''b'', ''N'')]\<rparr>))))
   \<and> cli (cfg1\<lparr>responses := [(''y'', ''Y''), (''b'', ''N'')]\<rparr>) [1 \<mapsto> day 10]
         [[raw1 12 (Some ''y'') ''a'']] = ([], Inl AssertionError)
   \<and> (''b'' \<in> set (map fst (responses (cfg1\<lparr>responses := [(''y'', ''B'')]\<rparr>)))
      \<or> ''B'' \<in> set (map snd (responses (cfg1\<lparr>responses := [(''y'', ''B'')]\<rparr>))))
   \<and> cli (cfg1\<lparr>responses := [(''y'', ''B'')]\<rparr>) [1 \<mapsto> day 10]
         [[raw1 12 (Some ''y'') ''a'']] = ([], Inl AssertionError)"
proof -
  have a: "''b'' \<in> set (map fst (responses (cfg1\<lparr>responses := [(''y'', ''Y''), (''b'', ''N'')]\<rparr>)))
      \<or> ''B'' \<in> set (map snd (responses (cfg1\<lparr>responses := [(''y'', ''Y''), (''b'', ''N'')]\<rparr>)))"
    by simp
  have b: "''b'' \<in> set (map fst (responses (cfg1\<lparr>responses := [(''y'', ''B'')]\<rparr>)))
      \<or> ''B'' \<in> set (map snd (responses (cfg1\<lparr>responses := [(''y'', ''B'')]\<rparr>)))"
    by simp
  show ?thesis
    using a b blank_collision_aborts [OF a, of "[1 \<mapsto> day 10]" "[[raw1 12 (Some ''y'') ''a'']]"]
      blank_collision_aborts [OF b, of "[1 \<mapsto> day 10]" "[[raw1 12 (Some ''y'') ''a'']]"]
    by blast
qed

end
